theory Spec2Isabelle
  imports Main
begin

section \<open>The chat store (package service)\<close>

text \<open>
  Identifiers are Go \<open>uint\<close> values. The code only compares them and lets the
  database number new rows, so they are natural numbers here. The rows carry the
  columns the code reads: \<open>model.Chat\<close> its id and the two participant ids,
  \<open>model.Message\<close> its id, chat, sender, content and read flag. The preloaded
  display fields (sender name, avatar) and the timestamps are never consulted by a branch
  of the code and are left out.
\<close>

record Chat =
  c_ID :: nat
  c_User1ID :: nat
  c_User2ID :: nat

record Message =
  m_ID :: nat
  m_ChatID :: nat
  m_SenderID :: nat
  m_Content :: string
  m_IsRead :: bool

text \<open>
  The database behind \<open>s.DB\<close>: the two tables in insertion order, the two id
  sequences, and the number of statements issued so far.
\<close>

record DB =
  chats :: "Chat list"
  messages :: "Message list"
  chat_seq :: nat
  message_seq :: nat
  statements :: nat

text \<open>
  What the code cannot decide itself is an input of the model: whether the \<open>n\<close>-th
  database statement fails in the driver (and with which text), whether the \<open>n\<close>-th
  \<open>WriteJSON\<close> call succeeds on a given connection, and the answer of
  \<open>helper.VerifyJWTToken\<close> (an error text or the user id of the token's claims).
\<close>

record env =
  db_fault :: "nat \<Rightarrow> string option"
  write_ok :: "nat \<Rightarrow> nat \<Rightarrow> bool"
  VerifyJWTToken :: "string \<Rightarrow> string + nat"

datatype gorm_error = ErrRecordNotFound | ErrDriver string

fun Error :: "gorm_error \<Rightarrow> string" where
  "Error ErrRecordNotFound = ''record not found''"
| "Error (ErrDriver x) = x"

definition tick :: "DB \<Rightarrow> DB" where
  "tick d = d\<lparr>statements := Suc (statements d)\<rparr>"

text \<open>The row of least id among \<open>r\<close> and \<open>rs\<close> (ORDER BY id LIMIT 1).\<close>

definition least_id :: "Chat \<Rightarrow> Chat list \<Rightarrow> Chat" where
  "least_id r rs = fold (\<lambda>x m. if c_ID x < c_ID m then x else m) rs r"

text \<open>\<open>DB.Where(P).First(&chat)\<close> on the chats table.\<close>

definition First_chat :: "env \<Rightarrow> (Chat \<Rightarrow> bool) \<Rightarrow> DB \<Rightarrow> (gorm_error + Chat) \<times> DB" where
  "First_chat e P d =
     (case db_fault e (statements d) of
        Some x \<Rightarrow> (Inl (ErrDriver x), tick d)
      | None \<Rightarrow>
          (case filter P (chats d) of
             [] \<Rightarrow> (Inl ErrRecordNotFound, tick d)
           | r # rs \<Rightarrow> (Inr (least_id r rs), tick d)))"

text \<open>
  \<open>DB.Create(&newChat)\<close>: the sequence gives the id; the primary key refuses an
  id that a row already has.
\<close>

definition Create_chat :: "env \<Rightarrow> nat \<Rightarrow> nat \<Rightarrow> DB \<Rightarrow> (gorm_error + Chat) \<times> DB" where
  "Create_chat e u1 u2 d =
     (case db_fault e (statements d) of
        Some x \<Rightarrow> (Inl (ErrDriver x), tick d)
      | None \<Rightarrow>
          (let n = Suc (chat_seq d); row = \<lparr>c_ID = n, c_User1ID = u1, c_User2ID = u2\<rparr> in
           if n \<in> c_ID ` set (chats d)
           then (Inl (ErrDriver ''duplicate key value violates unique constraint''),
                 tick (d\<lparr>chat_seq := n\<rparr>))
           else (Inr row, tick (d\<lparr>chats := chats d @ [row], chat_seq := n\<rparr>))))"

text \<open>\<open>DB.Model(&model.Chat{}).Where(P).Count(&count)\<close>.\<close>

definition Count_chats :: "env \<Rightarrow> (Chat \<Rightarrow> bool) \<Rightarrow> DB \<Rightarrow> (gorm_error + nat) \<times> DB" where
  "Count_chats e P d =
     (case db_fault e (statements d) of
        Some x \<Rightarrow> (Inl (ErrDriver x), tick d)
      | None \<Rightarrow> (Inr (length (filter P (chats d))), tick d))"

text \<open>\<open>DB.Create(&message)\<close> and \<open>DB.First(&message, id)\<close> on the messages table.\<close>

definition Create_message :: "env \<Rightarrow> nat \<Rightarrow> nat \<Rightarrow> string \<Rightarrow> DB \<Rightarrow> (gorm_error + Message) \<times> DB" where
  "Create_message e chatID senderID content d =
     (case db_fault e (statements d) of
        Some x \<Rightarrow> (Inl (ErrDriver x), tick d)
      | None \<Rightarrow>
          (let n = Suc (message_seq d);
               row = \<lparr>m_ID = n, m_ChatID = chatID, m_SenderID = senderID,
                      m_Content = content, m_IsRead = False\<rparr> in
           if n \<in> m_ID ` set (messages d)
           then (Inl (ErrDriver ''duplicate key value violates unique constraint''),
                 tick (d\<lparr>message_seq := n\<rparr>))
           else (Inr row, tick (d\<lparr>messages := messages d @ [row], message_seq := n\<rparr>))))"

definition First_message :: "env \<Rightarrow> nat \<Rightarrow> DB \<Rightarrow> (gorm_error + Message) \<times> DB" where
  "First_message e n d =
     (case db_fault e (statements d) of
        Some x \<Rightarrow> (Inl (ErrDriver x), tick d)
      | None \<Rightarrow>
          (case filter (\<lambda>m. m_ID m = n) (messages d) of
             [] \<Rightarrow> (Inl ErrRecordNotFound, tick d)
           | r # rs \<Rightarrow> (Inr r, tick d)))"

text \<open>\<open>DB.Model(&model.Message{}).Where(P).Update("is_read", true)\<close>.\<close>

definition Update_is_read :: "env \<Rightarrow> (Message \<Rightarrow> bool) \<Rightarrow> DB \<Rightarrow> gorm_error option \<times> DB" where
  "Update_is_read e P d =
     (case db_fault e (statements d) of
        Some x \<Rightarrow> (Some (ErrDriver x), tick d)
      | None \<Rightarrow>
          (None, tick (d\<lparr>messages :=
             map (\<lambda>m. if P m then m\<lparr>m_IsRead := True\<rparr> else m) (messages d)\<rparr>)))"

subsection \<open>The service functions\<close>

definition GetOrCreateChat :: "env \<Rightarrow> nat \<Rightarrow> nat \<Rightarrow> DB \<Rightarrow> (string + Chat) \<times> DB" where
  "GetOrCreateChat e user1ID user2ID d =
     (if user1ID = user2ID then (Inl ''cannot create chat with yourself'', d)
      else
        (let u1 = (if user1ID > user2ID then user2ID else user1ID);
             u2 = (if user1ID > user2ID then user1ID else user2ID) in
         case First_chat e (\<lambda>c. (c_User1ID c = u1 \<and> c_User2ID c = u2) \<or>
                                 (c_User1ID c = u2 \<and> c_User2ID c = u1)) d of
           (Inr chat, d1) \<Rightarrow> (Inr chat, d1)
         | (Inl ErrRecordNotFound, d1) \<Rightarrow>
             (case Create_chat e u1 u2 d1 of
                (Inl err, d2) \<Rightarrow> (Inl (''error creating chat: '' @ Error err), d2)
              | (Inr newChat, d2) \<Rightarrow>
                  (case First_chat e (\<lambda>c. c_ID c = c_ID newChat) d2 of
                     (Inl err, d3) \<Rightarrow> (Inl (''error loading chat users: '' @ Error err), d3)
                   | (Inr loaded, d3) \<Rightarrow> (Inr loaded, d3)))
         | (Inl err, d1) \<Rightarrow> (Inl (''error finding chat: '' @ Error err), d1)))"

text \<open>
  \<open>UserHasAccessToChat\<close> drops the error of its count: a failed statement leaves
  the count at zero.
\<close>

definition UserHasAccessToChat :: "env \<Rightarrow> nat \<Rightarrow> nat \<Rightarrow> DB \<Rightarrow> bool \<times> DB" where
  "UserHasAccessToChat e chatID userID d =
     (case Count_chats e (\<lambda>c. c_ID c = chatID \<and>
                               (c_User1ID c = userID \<or> c_User2ID c = userID)) d of
        (Inl err, d1) \<Rightarrow> (False, d1)
      | (Inr n, d1) \<Rightarrow> (n > 0, d1))"

definition SendMessage :: "env \<Rightarrow> nat \<Rightarrow> nat \<Rightarrow> string \<Rightarrow> DB \<Rightarrow> (string + Message) \<times> DB" where
  "SendMessage e chatID senderID content d =
     (let (access, d1) = UserHasAccessToChat e chatID senderID d in
      if \<not> access then (Inl ''unauthorized access to chat'', d1)
      else if content = [] then (Inl ''message content cannot be empty'', d1)
      else
        (case Create_message e chatID senderID content d1 of
           (Inl err, d2) \<Rightarrow> (Inl (''error creating message: '' @ Error err), d2)
         | (Inr message, d2) \<Rightarrow>
             (case First_message e (m_ID message) d2 of
                (Inl err, d3) \<Rightarrow> (Inl (''error loading message sender: '' @ Error err), d3)
              | (Inr loaded, d3) \<Rightarrow> (Inr loaded, d3))))"

definition MarkMessagesAsRead :: "env \<Rightarrow> nat \<Rightarrow> nat \<Rightarrow> DB \<Rightarrow> string option \<times> DB" where
  "MarkMessagesAsRead e chatID userID d =
     (let (access, d1) = UserHasAccessToChat e chatID userID d in
      if \<not> access then (Some ''unauthorized access to chat'', d1)
      else
        (case Update_is_read e (\<lambda>m. m_ChatID m = chatID \<and> m_SenderID m \<noteq> userID \<and>
                                     \<not> m_IsRead m) d1 of
           (Some err, d2) \<Rightarrow> (Some (''error marking messages as read: '' @ Error err), d2)
         | (None, d2) \<Rightarrow> (None, d2)))"

definition GetChatByID :: "env \<Rightarrow> nat \<Rightarrow> nat \<Rightarrow> DB \<Rightarrow> (string + Chat) \<times> DB" where
  "GetChatByID e chatID userID d =
     (let (access, d1) = UserHasAccessToChat e chatID userID d in
      if \<not> access then (Inl ''unauthorized access to chat'', d1)
      else
        (case First_chat e (\<lambda>c. c_ID c = chatID) d1 of
           (Inl ErrRecordNotFound, d2) \<Rightarrow> (Inl ''chat not found'', d2)
         | (Inl err, d2) \<Rightarrow> (Inl (''error retrieving chat: '' @ Error err), d2)
         | (Inr chat, d2) \<Rightarrow> (Inr chat, d2)))"

definition GetChatParticipants :: "env \<Rightarrow> nat \<Rightarrow> DB \<Rightarrow> (string + nat \<times> nat) \<times> DB" where
  "GetChatParticipants e chatID d =
     (case First_chat e (\<lambda>c. c_ID c = chatID) d of
        (Inl ErrRecordNotFound, d1) \<Rightarrow> (Inl ''chat not found'', d1)
      | (Inl err, d1) \<Rightarrow> (Inl (''error retrieving chat participants: '' @ Error err), d1)
      | (Inr chat, d1) \<Rightarrow> (Inr (c_User1ID chat, c_User2ID chat), d1))"

subsection \<open>Invariants of the chats table\<close>

text \<open>
  Every row has the smaller participant id first; no two rows have the same pair of
  participants. Both hold of the empty table, and \<open>GetOrCreateChat\<close>, the only
  function that adds a chat, keeps them.
\<close>

definition canonical :: "DB \<Rightarrow> bool" where
  "canonical d = list_all (\<lambda>c. c_User1ID c < c_User2ID c) (chats d)"

definition one_chat_per_pair :: "DB \<Rightarrow> bool" where
  "one_chat_per_pair d = distinct (map (\<lambda>c. (c_User1ID c, c_User2ID c)) (chats d))"

text \<open>
  The calls a client of the service can make, and the database after one of them: the
  databases the program can reach are those a sequence of calls makes from the empty one.
\<close>

datatype service_call =
    CallGetOrCreateChat nat nat
  | CallSendMessage nat nat string
  | CallMarkMessagesAsRead nat nat
  | CallGetChatByID nat nat
  | CallGetChatParticipants nat

fun service_step :: "env \<Rightarrow> DB \<Rightarrow> service_call \<Rightarrow> DB" where
  "service_step e d (CallGetOrCreateChat a b) = snd (GetOrCreateChat e a b d)"
| "service_step e d (CallSendMessage k u x) = snd (SendMessage e k u x d)"
| "service_step e d (CallMarkMessagesAsRead k u) = snd (MarkMessagesAsRead e k u d)"
| "service_step e d (CallGetChatByID k u) = snd (GetChatByID e k u d)"
| "service_step e d (CallGetChatParticipants k) = snd (GetChatParticipants e k d)"

section \<open>The chat controller (package controller)\<close>

record MessageResponse =
  r_ID :: nat
  r_ChatID :: nat
  r_SenderID :: nat
  r_Content :: string
  r_IsRead :: bool

text \<open>The values the code puts into the \<open>data\<close> field of an envelope.\<close>

datatype payload =
    NoData
  | MapMessage string
  | MapTimestamp nat
  | MapJoined nat string
  | MapChatID nat
  | MapError string
  | Response MessageResponse

record WebSocketMessage =
  Type :: string
  ChatID :: nat
  Content :: string
  Data :: payload

text \<open>An outbound envelope \<open>WebSocketMessage{Type: t, Data: p}\<close>.\<close>

definition event :: "string \<Rightarrow> payload \<Rightarrow> WebSocketMessage" where
  "event t p = \<lparr>Type = t, ChatID = 0, Content = [], Data = p\<rparr>"

text \<open>
  A \<open>*websocket.Conn\<close>: the nil pointer, or the connection of a given identity. The
  read and write deadlines and the pong handler that \<open>HandleWebSocket\<close> sets act only
  through the results of \<open>ReadJSON\<close> and \<open>WriteJSON\<close>, which are inputs here.
\<close>

datatype conn_ptr = nil | Conn nat

datatype read_failure = NormalClose | NetworkError | DecodeFailure | Timeout

text \<open>
  One result of \<open>c.ReadJSON\<close>: a decoded frame, together with the clock reading
  its handler sees, or an error.
\<close>

datatype inbound = Frame WebSocketMessage nat | Failed read_failure

datatype log_line =
    LogNoUserID
  | LogInvalidUserID string
  | LogInvalidToken nat string
  | LogTokenMismatch nat nat
  | LogAuthenticated nat
  | LogTestMode nat
  | LogConnected nat
  | LogReadError read_failure
  | LogUnknownType string
  | LogSendFailed nat
  | LogBroadcastFailed nat
  | LogParticipantsFailed string

text \<open>
  The controller and what it acts on: the map \<open>ctrl.connections\<close>; every
  \<open>WriteJSON\<close> call in order (connection, envelope, whether it succeeded); every
  \<open>Close\<close> call in order; the log; the runs of the deferred function of
  \<open>HandleWebSocket\<close> (user id, connection); the database of the service.
\<close>

record world =
  connections :: "nat \<Rightarrow> conn_ptr option"
  wire :: "(nat \<times> WebSocketMessage \<times> bool) list"
  closes :: "nat list"
  logs :: "log_line list"
  cleanups :: "(nat \<times> nat) list"
  db :: DB

definition sendToUser :: "env \<Rightarrow> nat \<Rightarrow> WebSocketMessage \<Rightarrow> world \<Rightarrow> world" where
  "sendToUser e userID msg s =
     (case connections s userID of
        Some (Conn c) \<Rightarrow>
          (if write_ok e (length (wire s)) c
           then s\<lparr>wire := wire s @ [(c, msg, True)]\<rparr>
           else s\<lparr>wire := wire s @ [(c, msg, False)],
                  logs := logs s @ [LogSendFailed userID],
                  connections := (connections s)(userID := None),
                  closes := closes s @ [c]\<rparr>)
      | _ \<Rightarrow> s)"

definition sendError :: "env \<Rightarrow> nat \<Rightarrow> string \<Rightarrow> world \<Rightarrow> world" where
  "sendError e userID errorMsg s = sendToUser e userID (event ''error'' (MapError errorMsg)) s"

text \<open>One round of the loop over \<open>targets\<close> in \<open>broadcastToChat\<close>.\<close>

definition broadcast_target :: "env \<Rightarrow> WebSocketMessage \<Rightarrow> world \<Rightarrow> nat \<Rightarrow> world" where
  "broadcast_target e msg s targetID =
     (case connections s targetID of
        Some (Conn c) \<Rightarrow>
          (if write_ok e (length (wire s)) c
           then s\<lparr>wire := wire s @ [(c, msg, True)]\<rparr>
           else s\<lparr>wire := wire s @ [(c, msg, False)],
                  logs := logs s @ [LogBroadcastFailed targetID]\<rparr>)
      | _ \<Rightarrow> s)"

definition broadcastToChat :: "env \<Rightarrow> nat \<Rightarrow> WebSocketMessage \<Rightarrow> world \<Rightarrow> world" where
  "broadcastToChat e chatID msg s =
     (case GetChatParticipants e chatID (db s) of
        (Inl err, d1) \<Rightarrow> s\<lparr>db := d1, logs := logs s @ [LogParticipantsFailed err]\<rparr>
      | (Inr (user1ID, user2ID), d1) \<Rightarrow>
          foldl (broadcast_target e msg) (s\<lparr>db := d1\<rparr>) [user1ID, user2ID])"

definition response_of :: "Message \<Rightarrow> MessageResponse" where
  "response_of message =
     \<lparr>r_ID = m_ID message, r_ChatID = m_ChatID message, r_SenderID = m_SenderID message,
      r_Content = m_Content message, r_IsRead = m_IsRead message\<rparr>"

definition handleSendMessage :: "env \<Rightarrow> nat \<Rightarrow> WebSocketMessage \<Rightarrow> world \<Rightarrow> world" where
  "handleSendMessage e userID msg s =
     (if ChatID msg = 0 \<or> Content msg = [] then sendError e userID ''Invalid message data'' s
      else
        (case SendMessage e (ChatID msg) userID (Content msg) (db s) of
           (Inl err, d1) \<Rightarrow> sendError e userID err (s\<lparr>db := d1\<rparr>)
         | (Inr message, d1) \<Rightarrow>
             broadcastToChat e (ChatID msg) (event ''new_message'' (Response (response_of message)))
               (s\<lparr>db := d1\<rparr>)))"

definition handleJoinChat :: "env \<Rightarrow> nat \<Rightarrow> WebSocketMessage \<Rightarrow> world \<Rightarrow> world" where
  "handleJoinChat e userID msg s =
     (if ChatID msg = 0 then sendError e userID ''Invalid chat ID'' s
      else
        (case GetChatByID e (ChatID msg) userID (db s) of
           (Inl err, d1) \<Rightarrow> sendError e userID err (s\<lparr>db := d1\<rparr>)
         | (Inr chat, d1) \<Rightarrow>
             sendToUser e userID
               (event ''joined_chat'' (MapJoined (c_ID chat) ''Joined chat successfully''))
               (s\<lparr>db := d1\<rparr>)))"

definition handleMarkRead :: "env \<Rightarrow> nat \<Rightarrow> WebSocketMessage \<Rightarrow> world \<Rightarrow> world" where
  "handleMarkRead e userID msg s =
     (if ChatID msg = 0 then sendError e userID ''Invalid chat ID'' s
      else
        (case MarkMessagesAsRead e (ChatID msg) userID (db s) of
           (Some err, d1) \<Rightarrow> sendError e userID err (s\<lparr>db := d1\<rparr>)
         | (None, d1) \<Rightarrow>
             sendToUser e userID (event ''messages_marked_read'' (MapChatID (ChatID msg)))
               (s\<lparr>db := d1\<rparr>)))"

text \<open>The \<open>switch msg.Type\<close> of the read loop.\<close>

definition dispatch :: "env \<Rightarrow> nat \<Rightarrow> WebSocketMessage \<Rightarrow> nat \<Rightarrow> world \<Rightarrow> world" where
  "dispatch e currentUserID msg now s =
     (if Type msg = ''ping'' then sendToUser e currentUserID (event ''pong'' (MapTimestamp now)) s
      else if Type msg = ''send_message'' then handleSendMessage e currentUserID msg s
      else if Type msg = ''join_chat'' then handleJoinChat e currentUserID msg s
      else if Type msg = ''mark_read'' then handleMarkRead e currentUserID msg s
      else s\<lparr>logs := logs s @ [LogUnknownType (Type msg)]\<rparr>)"

text \<open>
  The read loop, over the results \<open>ReadJSON\<close> gives this session. The flag says
  whether the loop has ended: with no result left the session is still waiting in
  \<open>ReadJSON\<close>.
\<close>

fun session_loop :: "env \<Rightarrow> nat \<Rightarrow> inbound list \<Rightarrow> world \<Rightarrow> bool \<times> world" where
  "session_loop e currentUserID [] s = (False, s)"
| "session_loop e currentUserID (Failed r # rest) s =
     (True, s\<lparr>logs := logs s @ [LogReadError r]\<rparr>)"
| "session_loop e currentUserID (Frame msg now # rest) s =
     session_loop e currentUserID rest (dispatch e currentUserID msg now s)"

text \<open>
  \<open>strconv.ParseUint(s, 10, 32)\<close>: a non-empty string of decimal digits whose value
  fits 32 bits; no sign, no underscore.
\<close>

definition digit :: "char \<Rightarrow> nat option" where
  "digit ch = (let k = (of_char ch :: nat) in if 48 \<le> k \<and> k \<le> 57 then Some (k - 48) else None)"

fun parse_digits :: "nat \<Rightarrow> string \<Rightarrow> nat option" where
  "parse_digits n [] = Some n"
| "parse_digits n (ch # cs) =
     (case digit ch of
        None \<Rightarrow> None
      | Some dgt \<Rightarrow> if 2 ^ 32 \<le> n * 10 + dgt then None else parse_digits (n * 10 + dgt) cs)"

definition ParseUint :: "string \<Rightarrow> nat option" where
  "ParseUint s = (if s = [] then None else parse_digits 0 s)"

text \<open>
  \<open>HandleWebSocket\<close> up to the point where the connection is stored: the user id
  the session runs under, or none when the connection was refused and closed.
\<close>

definition handshake :: "env \<Rightarrow> nat \<Rightarrow> string \<Rightarrow> string \<Rightarrow> world \<Rightarrow> nat option \<times> world" where
  "handshake e c userIDStr token s =
     (if userIDStr = [] then (None, s\<lparr>logs := logs s @ [LogNoUserID], closes := closes s @ [c]\<rparr>)
      else
        (case ParseUint userIDStr of
           None \<Rightarrow>
             (None, s\<lparr>logs := logs s @ [LogInvalidUserID userIDStr], closes := closes s @ [c]\<rparr>)
         | Some currentUserID \<Rightarrow>
             (if token \<noteq> [] then
                (case VerifyJWTToken e token of
                   Inl err \<Rightarrow>
                     (None, s\<lparr>logs := logs s @ [LogInvalidToken currentUserID err],
                              closes := closes s @ [c]\<rparr>)
                 | Inr claimsUserID \<Rightarrow>
                     if claimsUserID \<noteq> currentUserID
                     then (None, s\<lparr>logs := logs s @ [LogTokenMismatch claimsUserID currentUserID],
                                   closes := closes s @ [c]\<rparr>)
                     else (Some currentUserID,
                           s\<lparr>logs := logs s @ [LogAuthenticated currentUserID]\<rparr>))
              else (Some currentUserID, s\<lparr>logs := logs s @ [LogTestMode currentUserID]\<rparr>))))"

text \<open>The deferred function: delete the entry of the user id, close the connection.\<close>

definition deferred_cleanup :: "nat \<Rightarrow> nat \<Rightarrow> world \<Rightarrow> world" where
  "deferred_cleanup currentUserID c s =
     s\<lparr>connections := (connections s)(currentUserID := None),
       closes := closes s @ [c],
       cleanups := cleanups s @ [(currentUserID, c)]\<rparr>"

text \<open>
  The read loop of a session and, once it has ended, the deferred function. The flag
  says whether \<open>HandleWebSocket\<close> has returned.
\<close>

definition run_session :: "env \<Rightarrow> nat \<Rightarrow> nat \<Rightarrow> inbound list \<Rightarrow> world \<Rightarrow> bool \<times> world" where
  "run_session e currentUserID c reads s =
     (case session_loop e currentUserID reads s of
        (True, s1) \<Rightarrow> (True, deferred_cleanup currentUserID c s1)
      | (False, s1) \<Rightarrow> (False, s1))"

definition HandleWebSocket ::
  "env \<Rightarrow> nat \<Rightarrow> string \<Rightarrow> string \<Rightarrow> inbound list \<Rightarrow> world \<Rightarrow> bool \<times> world" where
  "HandleWebSocket e c userIDStr token reads s =
     (case handshake e c userIDStr token s of
        (None, s1) \<Rightarrow> (True, s1)
      | (Some currentUserID, s1) \<Rightarrow>
          run_session e currentUserID c reads
            (sendToUser e currentUserID
               (event ''connected'' (MapMessage ''Connected to chat server''))
               (s1\<lparr>connections := (connections s1)(currentUserID \<mapsto> Conn c),
                   logs := logs s1 @ [LogConnected currentUserID]\<rparr>)))"

section \<open>Example values\<close>

text \<open>
  An environment in which every statement and every write succeeds and no token
  verifies; the same with every write to one connection failing, and with one database
  statement failing.
\<close>

definition quiet :: env where
  "quiet = \<lparr>db_fault = (\<lambda>n. None), write_ok = (\<lambda>n c. True),
            VerifyJWTToken = (\<lambda>t. Inl ''token is malformed'')\<rparr>"

definition broken :: "nat \<Rightarrow> env" where
  "broken c = quiet\<lparr>write_ok := (\<lambda>n c'. c' \<noteq> c)\<rparr>"

definition faulty :: "nat \<Rightarrow> env" where
  "faulty k = quiet\<lparr>db_fault := (\<lambda>n. if n = k then Some ''connection refused'' else None)\<rparr>"

definition empty_db :: DB where
  "empty_db = \<lparr>chats = [], messages = [], chat_seq = 0, message_seq = 0, statements = 0\<rparr>"

text \<open>A database with chat 1 between the users 5 and 7.\<close>

definition chat_db :: DB where
  "chat_db = \<lparr>chats = [\<lparr>c_ID = 1, c_User1ID = 5, c_User2ID = 7\<rparr>], messages = [],
              chat_seq = 1, message_seq = 0, statements = 0\<rparr>"

text \<open>The same with one unread message of each participant in chat 1.\<close>

definition msg_db :: DB where
  "msg_db = chat_db\<lparr>messages :=
      [\<lparr>m_ID = 1, m_ChatID = 1, m_SenderID = 5, m_Content = ''hello'', m_IsRead = False\<rparr>,
       \<lparr>m_ID = 2, m_ChatID = 1, m_SenderID = 7, m_Content = ''hi'', m_IsRead = False\<rparr>],
      message_seq := 2\<rparr>"

definition empty_world :: world where
  "empty_world = \<lparr>connections = Map.empty, wire = [], closes = [], logs = [], cleanups = [],
                  db = empty_db\<rparr>"

text \<open>User 5 on connection 1 and user 7 on connection 2, over \<open>chat_db\<close>.\<close>

definition two_users :: world where
  "two_users = \<lparr>connections = [5 \<mapsto> Conn 1, 7 \<mapsto> Conn 2], wire = [], closes = [], logs = [],
                cleanups = [], db = chat_db\<rparr>"

section \<open>Properties\<close>

subsection \<open>Direct sends\<close>

text \<open>
  Claim C9. Every direct send goes through \<open>sendToUser\<close>, whatever the envelope
  (the connected acknowledgement, pong, joined_chat, messages_marked_read, error). When
  the write to the user's registered connection fails, the user's entry is removed from
  the registry and the connection is closed; the failure is logged and nothing further is
  written to any connection.
\<close>

theorem sendToUser_failed_write_evicts:
  assumes "connections s userID = Some (Conn c)"
    and "\<not> write_ok e (length (wire s)) c"
  shows "connections (sendToUser e userID msg s) userID = None
       \<and> closes (sendToUser e userID msg s) = closes s @ [c]
       \<and> wire (sendToUser e userID msg s) = wire s @ [(c, msg, False)]
       \<and> logs (sendToUser e userID msg s) = logs s @ [LogSendFailed userID]
       \<and> db (sendToUser e userID msg s) = db s"
  using assms by (simp add: sendToUser_def)

theorem sendToUser_failed_write_evicts_witness:
  "connections two_users 7 = Some (Conn 2)
   \<and> \<not> write_ok (broken 2) (length (wire two_users)) 2
   \<and> connections (sendToUser (broken 2) 7 (event ''pong'' (MapTimestamp 0)) two_users) 7 = None
   \<and> closes (sendToUser (broken 2) 7 (event ''pong'' (MapTimestamp 0)) two_users) = [2]
   \<and> wire (sendToUser (broken 2) 7 (event ''pong'' (MapTimestamp 0)) two_users)
       = [(2, event ''pong'' (MapTimestamp 0), False)]"
proof -
  have h1: "connections two_users 7 = Some (Conn 2)"
    by (simp add: two_users_def)
  have h2: "\<not> write_ok (broken 2) (length (wire two_users)) 2"
    by (simp add: broken_def quiet_def)
  from sendToUser_failed_write_evicts [OF h1 h2, of "event ''pong'' (MapTimestamp 0)"]
  show ?thesis using h1 h2 by (simp add: two_users_def)
qed

subsection \<open>The handshake\<close>

text \<open>
  Claim C7. When the \<open>user_id\<close> parameter is missing or does not parse as an
  unsigned integer, \<open>HandleWebSocket\<close> returns with the connection closed, the
  registry as it was, and nothing written to any connection.
\<close>

theorem HandleWebSocket_unparseable_user_id:
  assumes "userIDStr = [] \<or> ParseUint userIDStr = None"
  shows "fst (HandleWebSocket e c userIDStr token reads s)
       \<and> connections (snd (HandleWebSocket e c userIDStr token reads s)) = connections s
       \<and> wire (snd (HandleWebSocket e c userIDStr token reads s)) = wire s
       \<and> closes (snd (HandleWebSocket e c userIDStr token reads s)) = closes s @ [c]
       \<and> cleanups (snd (HandleWebSocket e c userIDStr token reads s)) = cleanups s
       \<and> db (snd (HandleWebSocket e c userIDStr token reads s)) = db s"
  using assms by (auto simp: HandleWebSocket_def handshake_def)

theorem HandleWebSocket_unparseable_user_id_witness:
  "ParseUint ''7x'' = None
   \<and> connections (snd (HandleWebSocket quiet 3 ''7x'' [] [Frame (event ''ping'' NoData) 0] two_users))
       = connections two_users
   \<and> wire (snd (HandleWebSocket quiet 3 ''7x'' [] [Frame (event ''ping'' NoData) 0] two_users)) = []
   \<and> closes (snd (HandleWebSocket quiet 3 ''7x'' [] [Frame (event ''ping'' NoData) 0] two_users)) = [3]"
proof -
  have h: "ParseUint ''7x'' = None"
    by (simp add: ParseUint_def digit_def)
  then have "''7x'' = [] \<or> ParseUint ''7x'' = None" by simp
  from HandleWebSocket_unparseable_user_id [OF this, of quiet 3 "[]" "[Frame (event ''ping'' NoData) 0]" two_users]
  show ?thesis using h by (simp add: two_users_def)
qed

subsection \<open>Rejected commands\<close>

text \<open>
  Claim C6, as stated, fails: with chat id 0 the one error event is written to the sender's
  connection, and when that write fails \<open>sendToUser\<close> removes the sender's entry,
  so the registry does change. Here user 5 is on connection 1 and writes to it fail.
\<close>

theorem handleSendMessage_invalid_counterexample:
  "connections two_users 5 = Some (Conn 1)
   \<and> connections (handleSendMessage (broken 1) 5
        \<lparr>Type = ''send_message'', ChatID = 0, Content = ''hi'', Data = NoData\<rparr> two_users) 5 = None"
  by (simp add: handleSendMessage_def sendError_def sendToUser_def two_users_def broken_def quiet_def)

text \<open>
  Claim C6, amended. For a sender whose id has a registered connection, a
  \<open>send_message\<close> command with chat id 0 or empty content makes exactly one write, of
  one error event, to that connection, and leaves the database untouched (every store call
  would count a statement). When the write succeeds the registry and the connections
  stay as they were; when it fails the sender's entry is removed and the connection closed.
\<close>

theorem handleSendMessage_invalid:
  assumes "ChatID msg = 0 \<or> Content msg = []"
    and "connections s userID = Some (Conn c)"
  shows "wire (handleSendMessage e userID msg s)
           = wire s @ [(c, event ''error'' (MapError ''Invalid message data''),
                        write_ok e (length (wire s)) c)]
       \<and> db (handleSendMessage e userID msg s) = db s
       \<and> (write_ok e (length (wire s)) c \<longrightarrow>
            connections (handleSendMessage e userID msg s) = connections s
          \<and> closes (handleSendMessage e userID msg s) = closes s)
       \<and> (\<not> write_ok e (length (wire s)) c \<longrightarrow>
            connections (handleSendMessage e userID msg s) = (connections s)(userID := None)
          \<and> closes (handleSendMessage e userID msg s) = closes s @ [c])"
  using assms by (auto simp: handleSendMessage_def sendError_def sendToUser_def)

theorem handleSendMessage_invalid_witness:
  "connections two_users 5 = Some (Conn 1)
   \<and> write_ok quiet (length (wire two_users)) 1
   \<and> wire (handleSendMessage quiet 5
        \<lparr>Type = ''send_message'', ChatID = 0, Content = ''hi'', Data = NoData\<rparr> two_users)
       = [(1, event ''error'' (MapError ''Invalid message data''), True)]
   \<and> connections (handleSendMessage quiet 5
        \<lparr>Type = ''send_message'', ChatID = 0, Content = ''hi'', Data = NoData\<rparr> two_users)
       = connections two_users"
proof -
  let ?m = "\<lparr>Type = ''send_message'', ChatID = 0, Content = ''hi'', Data = NoData\<rparr>"
  have h1: "ChatID ?m = 0 \<or> Content ?m = []" by simp
  have h2: "connections two_users 5 = Some (Conn 1)" by (simp add: two_users_def)
  have h3: "write_ok quiet (length (wire two_users)) 1" by (simp add: quiet_def)
  from handleSendMessage_invalid [OF h1 h2, of quiet] h3
  show ?thesis using h2 by (simp add: two_users_def)
qed

subsection \<open>Broadcast\<close>

text \<open>
  Claim C1 at a concrete input: chat 1 is between the users 5 and 7, both registered, and
  every write to connection 2 (user 7) fails. After the broadcast the entry of user 7 is
  still in the registry and connection 2 was not closed; the next broadcast finds the
  connection and writes to it again. \<open>sendToUser\<close> removes the entry in the same
  situation; \<open>broadcastToChat\<close> only logs.
\<close>

theorem broadcastToChat_failed_write_keeps_entry:
  "connections (broadcastToChat (broken 2) 1 (event ''new_message'' NoData) two_users) 7
     = Some (Conn 2)
   \<and> closes (broadcastToChat (broken 2) 1 (event ''new_message'' NoData) two_users) = []
   \<and> wire (broadcastToChat (broken 2) 1 (event ''new_message'' NoData) two_users)
       = [(1, event ''new_message'' NoData, True), (2, event ''new_message'' NoData, False)]
   \<and> wire (broadcastToChat (broken 2) 1 (event ''new_message'' NoData)
              (broadcastToChat (broken 2) 1 (event ''new_message'' NoData) two_users))
       = [(1, event ''new_message'' NoData, True), (2, event ''new_message'' NoData, False),
          (1, event ''new_message'' NoData, True), (2, event ''new_message'' NoData, False)]"
  by (simp add: broadcastToChat_def broadcast_target_def GetChatParticipants_def First_chat_def
      least_id_def tick_def two_users_def chat_db_def broken_def quiet_def)

lemma broadcastToChat_found:
  assumes "GetChatParticipants e chatID (db s) = (Inr (user1ID, user2ID), d1)"
  shows "broadcastToChat e chatID msg s
           = broadcast_target e msg (broadcast_target e msg (s\<lparr>db := d1\<rparr>) user1ID) user2ID"
  using assms by (simp add: broadcastToChat_def)

lemma broadcast_target_frame:
  "connections (broadcast_target e msg s t) = connections s
   \<and> closes (broadcast_target e msg s t) = closes s
   \<and> db (broadcast_target e msg s t) = db s"
  by (simp add: broadcast_target_def split: option.splits conn_ptr.splits)

lemma broadcast_target_wire:
  "wire (broadcast_target e msg s t) =
     wire s @ (case connections s t of
                 Some (Conn c) \<Rightarrow> [(c, msg, write_ok e (length (wire s)) c)]
               | _ \<Rightarrow> [])"
  by (simp add: broadcast_target_def split: option.splits conn_ptr.splits)

text \<open>
  Claim C8. When the participant lookup succeeds, the broadcast writes the event to the
  registered connection of each participant, whatever happens with the other one (no
  connection, a failed write): the writes of the broadcast are exactly writes of the event
  to connections of the two participants, so no error event reaches the sender, and the
  registry is left as it was.
\<close>

theorem broadcastToChat_independent_delivery:
  assumes "GetChatParticipants e chatID (db s) = (Inr (user1ID, user2ID), d1)"
    and "s' = broadcastToChat e chatID msg s"
  shows "take (length (wire s)) (wire s') = wire s
       \<and> (\<forall>c. connections s user1ID = Some (Conn c) \<longrightarrow>
              (\<exists>ok. (c, msg, ok) \<in> set (drop (length (wire s)) (wire s'))))
       \<and> (\<forall>c. connections s user2ID = Some (Conn c) \<longrightarrow>
              (\<exists>ok. (c, msg, ok) \<in> set (drop (length (wire s)) (wire s'))))
       \<and> (\<forall>a \<in> set (drop (length (wire s)) (wire s')).
              fst (snd a) = msg \<and>
              (connections s user1ID = Some (Conn (fst a)) \<or> connections s user2ID = Some (Conn (fst a))))
       \<and> connections s' = connections s
       \<and> closes s' = closes s"
proof -
  let ?s1 = "broadcast_target e msg (s\<lparr>db := d1\<rparr>) user1ID"
  have s': "s' = broadcast_target e msg ?s1 user2ID"
    using assms by (simp add: broadcastToChat_found)
  have c1: "connections ?s1 = connections s"
    by (simp add: broadcast_target_frame)
  have w: "wire s' = wire s @
      (case connections s user1ID of
         Some (Conn c) \<Rightarrow> [(c, msg, write_ok e (length (wire s)) c)] | _ \<Rightarrow> []) @
      (case connections s user2ID of
         Some (Conn c) \<Rightarrow> [(c, msg, write_ok e (length (wire ?s1)) c)] | _ \<Rightarrow> [])"
    unfolding s' by (simp add: broadcast_target_wire c1 split: option.splits conn_ptr.splits)
  have f: "connections s' = connections s \<and> closes s' = closes s"
    unfolding s' by (simp add: broadcast_target_frame)
  show ?thesis
    using f by (auto simp: w split: option.splits conn_ptr.splits)
qed

theorem broadcastToChat_independent_delivery_witness:
  "GetChatParticipants (broken 1) 1 (db two_users) = (Inr (5, 7), tick chat_db)
   \<and> connections two_users 7 = Some (Conn 2)
   \<and> \<not> write_ok (broken 1) 0 1
   \<and> (\<exists>ok. (2, event ''new_message'' NoData, ok)
          \<in> set (wire (broadcastToChat (broken 1) 1 (event ''new_message'' NoData) two_users)))
   \<and> connections (broadcastToChat (broken 1) 1 (event ''new_message'' NoData) two_users)
        = connections two_users"
proof -
  have h: "GetChatParticipants (broken 1) 1 (db two_users) = (Inr (5, 7), tick chat_db)"
    by (simp add: GetChatParticipants_def First_chat_def least_id_def two_users_def chat_db_def
        broken_def quiet_def)
  have c: "connections two_users 7 = Some (Conn 2)" and w: "wire two_users = []"
    by (simp_all add: two_users_def)
  have f: "\<not> write_ok (broken 1) 0 1"
    by (simp add: broken_def quiet_def)
  from broadcastToChat_independent_delivery [OF h refl, of "event ''new_message'' NoData"] c w
  have "(\<exists>ok. (2, event ''new_message'' NoData, ok)
          \<in> set (wire (broadcastToChat (broken 1) 1 (event ''new_message'' NoData) two_users)))
      \<and> connections (broadcastToChat (broken 1) 1 (event ''new_message'' NoData) two_users)
        = connections two_users"
    by simp
  with h c f show ?thesis by simp
qed

subsection \<open>The end of a session\<close>

lemma sendToUser_cleanups: "cleanups (sendToUser e u m s) = cleanups s"
  by (simp add: sendToUser_def split: option.splits conn_ptr.splits)

lemma sendError_cleanups: "cleanups (sendError e u x s) = cleanups s"
  by (simp add: sendError_def sendToUser_cleanups)

lemma broadcast_target_cleanups: "cleanups (broadcast_target e m s t) = cleanups s"
  by (simp add: broadcast_target_def split: option.splits conn_ptr.splits)

lemma broadcastToChat_cleanups: "cleanups (broadcastToChat e k m s) = cleanups s"
  by (simp add: broadcastToChat_def broadcast_target_cleanups split: prod.splits sum.splits)

lemma dispatch_cleanups: "cleanups (dispatch e u m t s) = cleanups s"
  by (simp add: dispatch_def handleSendMessage_def handleJoinChat_def handleMarkRead_def
      sendToUser_cleanups sendError_cleanups broadcastToChat_cleanups
      split: prod.splits sum.splits option.splits)

lemma session_loop_cleanups: "cleanups (snd (session_loop e u reads s)) = cleanups s"
  by (induction e u reads s rule: session_loop.induct) (simp_all add: dispatch_cleanups)

lemma session_loop_exits: "Failed r \<in> set reads \<Longrightarrow> fst (session_loop e u reads s)"
  by (induction e u reads s rule: session_loop.induct) auto

lemma handshake_frame:
  "handshake e c userIDStr token s = (r, s1) \<Longrightarrow>
     cleanups s1 = cleanups s \<and> connections s1 = connections s \<and> wire s1 = wire s \<and> db s1 = db s"
  by (auto simp: handshake_def split: if_splits option.splits sum.splits)

lemma handshake_accepts_closes:
  "handshake e c userIDStr token s = (Some u, s1) \<Longrightarrow> closes s1 = closes s"
  by (auto simp: handshake_def split: if_splits option.splits sum.splits)

text \<open>
  Claim C3. For a session that passed the handshake, whenever the read loop ends (a read
  fails, for whichever reason: close, network error, undecodable frame, timeout) the
  deferred function has run exactly once: one run is recorded for the session's user id
  and connection, the entry of the user id is gone and the connection was closed last.
\<close>

theorem deferred_cleanup_runs_once:
  assumes "handshake e c userIDStr token s = (Some uid, s1)"
    and "Failed r \<in> set reads"
  shows "fst (HandleWebSocket e c userIDStr token reads s)
       \<and> cleanups (snd (HandleWebSocket e c userIDStr token reads s)) = cleanups s @ [(uid, c)]
       \<and> connections (snd (HandleWebSocket e c userIDStr token reads s)) uid = None
       \<and> last (closes (snd (HandleWebSocket e c userIDStr token reads s))) = c"
proof -
  define s2 where "s2 = sendToUser e uid (event ''connected'' (MapMessage ''Connected to chat server''))
               (s1\<lparr>connections := (connections s1)(uid \<mapsto> Conn c),
                   logs := logs s1 @ [LogConnected uid]\<rparr>)"
  obtain s3 where loop: "session_loop e uid reads s2 = (True, s3)"
    using session_loop_exits [OF assms(2), of e uid s2] by (cases "session_loop e uid reads s2") auto
  have c3: "cleanups s3 = cleanups s"
    using session_loop_cleanups [of e uid reads s2] loop handshake_frame [OF assms(1)]
    by (simp add: s2_def sendToUser_cleanups)
  have "HandleWebSocket e c userIDStr token reads s = (True, deferred_cleanup uid c s3)"
    using assms(1) loop by (simp add: HandleWebSocket_def run_session_def s2_def)
  then show ?thesis using c3 by (simp add: deferred_cleanup_def)
qed

theorem deferred_cleanup_runs_once_witness:
  "handshake quiet 1 ''5'' [] two_users
     = (Some 5, two_users\<lparr>logs := [LogTestMode 5]\<rparr>)
   \<and> fst (HandleWebSocket quiet 1 ''5'' [] [Frame (event ''ping'' NoData) 0, Failed Timeout] two_users)
   \<and> cleanups (snd (HandleWebSocket quiet 1 ''5'' [] [Frame (event ''ping'' NoData) 0, Failed Timeout] two_users))
        = [(5, 1)]
   \<and> connections (snd (HandleWebSocket quiet 1 ''5'' [] [Frame (event ''ping'' NoData) 0, Failed Timeout] two_users)) 5
        = None"
proof -
  have h1: "handshake quiet 1 ''5'' [] two_users = (Some 5, two_users\<lparr>logs := [LogTestMode 5]\<rparr>)"
    by (simp add: handshake_def ParseUint_def digit_def two_users_def)
  have h2: "Failed Timeout \<in> set [Frame (event ''ping'' NoData) 0, Failed Timeout]" by simp
  from deferred_cleanup_runs_once [OF h1 h2]
  show ?thesis using h1 by (simp add: two_users_def)
qed

text \<open>
  Claim C10. The deferred function deletes the entry of its user id without looking at
  the stored connection. A second connection \<open>c2\<close> for the same user id passes the
  handshake, overwrites the entry and waits for its first frame; when the loop of the
  first session (connection \<open>c1\<close>) then ends, the entry is deleted although
  \<open>c2\<close> was never closed.
\<close>

theorem deferred_cleanup_deletes_newer_entry:
  assumes "handshake e c2 userIDStr token s = (Some uid, s1)"
    and "write_ok e (length (wire s)) c2"
    and "c1 \<noteq> c2"
    and "s2 = snd (HandleWebSocket e c2 userIDStr token [] s)"
    and "s3 = snd (run_session e uid c1 (Failed r # rest) s2)"
  shows "\<not> fst (HandleWebSocket e c2 userIDStr token [] s)
       \<and> connections s2 uid = Some (Conn c2)
       \<and> closes s2 = closes s
       \<and> fst (run_session e uid c1 (Failed r # rest) s2)
       \<and> connections s3 uid = None
       \<and> closes s3 = closes s @ [c1]"
  using assms handshake_frame [OF assms(1)] handshake_accepts_closes [OF assms(1)]
  by (simp add: HandleWebSocket_def run_session_def sendToUser_def deferred_cleanup_def)

theorem deferred_cleanup_deletes_newer_entry_witness:
  "connections (snd (HandleWebSocket quiet 1 ''5'' [] [] empty_world)) 5 = Some (Conn 1)
   \<and> connections (snd (HandleWebSocket quiet 2 ''5'' [] []
         (snd (HandleWebSocket quiet 1 ''5'' [] [] empty_world)))) 5 = Some (Conn 2)
   \<and> connections (snd (run_session quiet 5 1 [Failed NormalClose]
         (snd (HandleWebSocket quiet 2 ''5'' [] []
            (snd (HandleWebSocket quiet 1 ''5'' [] [] empty_world)))))) 5 = None
   \<and> closes (snd (run_session quiet 5 1 [Failed NormalClose]
         (snd (HandleWebSocket quiet 2 ''5'' [] []
            (snd (HandleWebSocket quiet 1 ''5'' [] [] empty_world)))))) = [1]"
proof -
  define w1 where "w1 = snd (HandleWebSocket quiet 1 ''5'' [] [] empty_world)"
  define w2 where "w2 = snd (HandleWebSocket quiet 2 ''5'' [] [] w1)"
  define w3 where "w3 = snd (run_session quiet 5 1 [Failed NormalClose] w2)"
  have w1: "w1 = empty_world\<lparr>connections := [5 \<mapsto> Conn 1],
      wire := [(1, event ''connected'' (MapMessage ''Connected to chat server''), True)],
      logs := [LogTestMode 5, LogConnected 5]\<rparr>"
    by (simp add: w1_def HandleWebSocket_def handshake_def ParseUint_def digit_def run_session_def
        sendToUser_def empty_world_def quiet_def)
  have h1: "handshake quiet 2 ''5'' [] w1 = (Some 5, w1\<lparr>logs := logs w1 @ [LogTestMode 5]\<rparr>)"
    by (simp add: handshake_def ParseUint_def digit_def)
  have h2: "write_ok quiet (length (wire w1)) 2" by (simp add: quiet_def)
  have h3: "(1::nat) \<noteq> 2" by simp
  have a: "connections w1 5 = Some (Conn 1)" and b: "closes w1 = []"
    using w1 by (simp_all add: empty_world_def)
  from deferred_cleanup_deletes_newer_entry [OF h1 h2 h3 w2_def w3_def]
  have "connections w2 5 = Some (Conn 2) \<and> connections w3 5 = None \<and> closes w3 = [1]"
    using b by simp
  with a show ?thesis
    unfolding w3_def w2_def w1_def by simp
qed

subsection \<open>Read receipts\<close>

lemma MarkMessagesAsRead_messages:
  "messages (snd (MarkMessagesAsRead e chatID userID d)) = messages d
   \<or> (fst (MarkMessagesAsRead e chatID userID d) = None
      \<and> messages (snd (MarkMessagesAsRead e chatID userID d))
         = map (\<lambda>m. if m_ChatID m = chatID \<and> m_SenderID m \<noteq> userID \<and> \<not> m_IsRead m
                      then m\<lparr>m_IsRead := True\<rparr> else m) (messages d))"
  by (simp add: MarkMessagesAsRead_def UserHasAccessToChat_def Count_chats_def Update_is_read_def
      tick_def split: option.splits)

lemma MarkMessagesAsRead_success:
  "fst (MarkMessagesAsRead e chatID userID d) = None \<Longrightarrow>
     messages (snd (MarkMessagesAsRead e chatID userID d))
         = map (\<lambda>m. if m_ChatID m = chatID \<and> m_SenderID m \<noteq> userID \<and> \<not> m_IsRead m
                      then m\<lparr>m_IsRead := True\<rparr> else m) (messages d)"
  by (simp add: MarkMessagesAsRead_def UserHasAccessToChat_def Count_chats_def Update_is_read_def
      tick_def split: option.splits if_splits)

text \<open>
  Claim C5. \<open>MarkMessagesAsRead(chat, user)\<close> keeps the messages table row by row:
  a message whose sender is the user is left exactly as it was; a message that changed
  was an unread message of that chat with another sender, and only its read flag was set.
  When the call succeeds, every message of the chat from another sender is read
  afterwards.
\<close>

theorem MarkMessagesAsRead_spares_own_messages:
  assumes "d' = snd (MarkMessagesAsRead e chatID userID d)"
  shows "length (messages d') = length (messages d)
       \<and> (\<forall>i < length (messages d).
            (m_SenderID (messages d ! i) = userID \<longrightarrow> messages d' ! i = messages d ! i)
          \<and> (messages d' ! i \<noteq> messages d ! i \<longrightarrow>
               m_ChatID (messages d ! i) = chatID \<and> m_SenderID (messages d ! i) \<noteq> userID
             \<and> \<not> m_IsRead (messages d ! i)
             \<and> messages d' ! i = (messages d ! i)\<lparr>m_IsRead := True\<rparr>))
       \<and> (fst (MarkMessagesAsRead e chatID userID d) = None \<longrightarrow>
            (\<forall>i < length (messages d).
               m_ChatID (messages d ! i) = chatID \<and> m_SenderID (messages d ! i) \<noteq> userID \<longrightarrow>
               m_IsRead (messages d' ! i)))
       \<and> chats d' = chats d"
proof -
  have ch: "chats d' = chats d"
    unfolding assms
    by (simp add: MarkMessagesAsRead_def UserHasAccessToChat_def Count_chats_def Update_is_read_def
      tick_def split: option.splits)
  from MarkMessagesAsRead_messages [of e chatID userID d]
  have a: "length (messages d') = length (messages d)
       \<and> (\<forall>i < length (messages d).
            (m_SenderID (messages d ! i) = userID \<longrightarrow> messages d' ! i = messages d ! i)
          \<and> (messages d' ! i \<noteq> messages d ! i \<longrightarrow>
               m_ChatID (messages d ! i) = chatID \<and> m_SenderID (messages d ! i) \<noteq> userID
             \<and> \<not> m_IsRead (messages d ! i)
             \<and> messages d' ! i = (messages d ! i)\<lparr>m_IsRead := True\<rparr>))"
    unfolding assms by (elim disjE) auto
  have b: "fst (MarkMessagesAsRead e chatID userID d) = None \<longrightarrow>
            (\<forall>i < length (messages d).
               m_ChatID (messages d ! i) = chatID \<and> m_SenderID (messages d ! i) \<noteq> userID \<longrightarrow>
               m_IsRead (messages d' ! i))"
    unfolding assms using MarkMessagesAsRead_success [of e chatID userID d] by auto
  from a b ch show ?thesis by blast
qed

theorem MarkMessagesAsRead_spares_own_messages_witness:
  "fst (MarkMessagesAsRead quiet 1 5 msg_db) = None
   \<and> m_SenderID (messages msg_db ! 0) = 5
   \<and> messages (snd (MarkMessagesAsRead quiet 1 5 msg_db)) ! 0 = messages msg_db ! 0
   \<and> m_SenderID (messages msg_db ! 1) = 7
   \<and> m_IsRead (messages (snd (MarkMessagesAsRead quiet 1 5 msg_db)) ! 1)
   \<and> \<not> m_IsRead (messages msg_db ! 1)"
proof -
  have ok: "fst (MarkMessagesAsRead quiet 1 5 msg_db) = None"
    by (simp add: MarkMessagesAsRead_def UserHasAccessToChat_def Count_chats_def Update_is_read_def
        tick_def msg_db_def chat_db_def quiet_def)
  have m: "0 < length (messages msg_db)" "1 < length (messages msg_db)"
    "m_SenderID (messages msg_db ! 0) = 5"
    "m_SenderID (messages msg_db ! 1) = 7" "m_ChatID (messages msg_db ! 1) = 1"
    "\<not> m_IsRead (messages msg_db ! 1)"
    by (simp_all add: msg_db_def)
  have n: "(7::nat) \<noteq> 5" by simp
  note T = MarkMessagesAsRead_spares_own_messages [OF refl, of quiet 1 5 msg_db]
  have a: "messages (snd (MarkMessagesAsRead quiet 1 5 msg_db)) ! 0 = messages msg_db ! 0"
    using T m(1) m(3) by blast
  have b: "m_IsRead (messages (snd (MarkMessagesAsRead quiet 1 5 msg_db)) ! 1)"
    using T ok m(2) m(4) m(5) n by metis
  from ok m a b show ?thesis by blast
qed

subsection \<open>Chats\<close>

lemma least_id_in: "least_id r rs \<in> set (r # rs)"
  unfolding least_id_def
proof (induction rs arbitrary: r)
  case Nil
  then show ?case by simp
next
  case (Cons x xs)
  show ?case using Cons [of "if c_ID x < c_ID r then x else r"] by auto
qed

lemma First_chat_Inr:
  "First_chat e P d = (Inr c, d') \<longleftrightarrow>
     db_fault e (statements d) = None \<and> d' = tick d \<and>
     (\<exists>r rs. filter P (chats d) = r # rs \<and> c = least_id r rs)"
  by (auto simp: First_chat_def split: option.splits list.splits)

lemma First_chat_NotFound:
  "First_chat e P d = (Inl ErrRecordNotFound, d') \<longleftrightarrow>
     db_fault e (statements d) = None \<and> d' = tick d \<and> filter P (chats d) = []"
  by (auto simp: First_chat_def split: option.splits list.splits)

lemma First_chat_tick: "snd (First_chat e P d) = tick d"
  by (simp add: First_chat_def split: option.splits list.splits)

lemma Create_chat_Inr:
  assumes "Create_chat e u1 u2 d = (Inr row, d')"
  shows "row = \<lparr>c_ID = Suc (chat_seq d), c_User1ID = u1, c_User2ID = u2\<rparr>
       \<and> Suc (chat_seq d) \<notin> c_ID ` set (chats d)
       \<and> chats d' = chats d @ [row]
       \<and> statements d' = Suc (statements d)"
  using assms by (auto simp: Create_chat_def Let_def tick_def split: option.splits if_splits)

lemma GetOrCreateChat_normal:
  "a \<noteq> b \<Longrightarrow> GetOrCreateChat e a b d = GetOrCreateChat e (min a b) (max a b) d"
  by (cases "a < b") (auto simp: GetOrCreateChat_def min_def max_def)

lemma GetOrCreateChat_ordered:
  assumes lt: "a < b" and ok: "GetOrCreateChat e a b d = (Inr chat, d1)"
  defines "P \<equiv> \<lambda>c. (c_User1ID c = a \<and> c_User2ID c = b) \<or> (c_User1ID c = b \<and> c_User2ID c = a)"
  shows "(\<exists>r rs. filter P (chats d1) = r # rs \<and> chat = least_id r rs)
       \<and> (chats d1 = chats d \<or>
            (filter P (chats d) = [] \<and> c_User1ID chat = a \<and> c_User2ID chat = b
             \<and> chats d1 = chats d @ [chat]))"
proof -
  obtain x d0 where f: "First_chat e P d = (x, d0)"
    by (cases "First_chat e P d")
  have unfold: "GetOrCreateChat e a b d =
      (case (x, d0) of
           (Inr chat, d1) \<Rightarrow> (Inr chat, d1)
         | (Inl ErrRecordNotFound, d1) \<Rightarrow>
             (case Create_chat e a b d1 of
                (Inl err, d2) \<Rightarrow> (Inl (''error creating chat: '' @ Error err), d2)
              | (Inr newChat, d2) \<Rightarrow>
                  (case First_chat e (\<lambda>c. c_ID c = c_ID newChat) d2 of
                     (Inl err, d3) \<Rightarrow> (Inl (''error loading chat users: '' @ Error err), d3)
                   | (Inr loaded, d3) \<Rightarrow> (Inr loaded, d3)))
         | (Inl err, d1) \<Rightarrow> (Inl (''error finding chat: '' @ Error err), d1))"
    using lt f by (simp add: GetOrCreateChat_def P_def)
  show ?thesis
  proof (cases x)
    case (Inr c)
    with ok unfold have c: "c = chat" and d0: "d0 = d1" by simp_all
    from f Inr c d0 have "First_chat e P d = (Inr chat, d1)" by simp
    then have "d1 = tick d" and "\<exists>r rs. filter P (chats d) = r # rs \<and> chat = least_id r rs"
      by (auto simp: First_chat_Inr)
    then show ?thesis by (auto simp: tick_def)
  next
    case (Inl err)
    show ?thesis
    proof (cases err)
      case (ErrDriver y)
      with ok unfold Inl show ?thesis by simp
    next
      case ErrRecordNotFound
      with f Inl have nf: "filter P (chats d) = []" and d0: "d0 = tick d"
        by (auto simp: First_chat_NotFound)
      obtain y d2 where cr: "Create_chat e a b d0 = (y, d2)"
        by (cases "Create_chat e a b d0")
      show ?thesis
      proof (cases y)
        case (Inl z)
        with ok unfold \<open>x = Inl err\<close> ErrRecordNotFound cr show ?thesis by simp
      next
        case (Inr row)
        note C = Create_chat_Inr [OF cr [unfolded Inr]]
        obtain w d3 where re: "First_chat e (\<lambda>c. c_ID c = c_ID row) d2 = (w, d3)"
          by (cases "First_chat e (\<lambda>c. c_ID c = c_ID row) d2")
        from ok unfold \<open>x = Inl err\<close> ErrRecordNotFound cr Inr re
        have w: "w = Inr chat" and d3: "d3 = d1"
          by (auto split: sum.splits)
        from re w d3 have F: "First_chat e (\<lambda>c. c_ID c = c_ID row) d2 = (Inr chat, d1)" by simp
        have only: "filter (\<lambda>c. c_ID c = c_ID row) (chats d2) = [row]"
          using C d0 by (force simp: tick_def filter_empty_conv)
        from F only have chat: "chat = row" and d1: "d1 = tick d2"
          by (auto simp: First_chat_Inr least_id_def)
        have ch1: "chats d1 = chats d @ [chat]"
          using C d0 d1 chat by (simp add: tick_def)
        have Pc: "P chat" using C chat by (simp add: P_def)
        have "filter P (chats d1) = [chat]"
          using ch1 nf Pc by simp
        then have "\<exists>r rs. filter P (chats d1) = r # rs \<and> chat = least_id r rs"
          by (simp add: least_id_def)
        then show ?thesis using nf ch1 C chat by simp
      qed
    qed
  qed
qed

lemma GetOrCreateChat_again:
  assumes "a < b" and "filter (\<lambda>c. (c_User1ID c = a \<and> c_User2ID c = b) \<or>
                                 (c_User1ID c = b \<and> c_User2ID c = a)) (chats d) = r # rs"
    and "db_fault e (statements d) = None"
  shows "GetOrCreateChat e a b d = (Inr (least_id r rs), tick d)"
  using assms by (simp add: GetOrCreateChat_def First_chat_def)

lemma GetOrCreateChat_succeeds:
  assumes "a \<noteq> b" and nf: "\<And>n. db_fault e n = None"
    and fresh: "\<And>c. c \<in> set (chats d) \<Longrightarrow> c_ID c \<le> chat_seq d"
  shows "\<exists>chat d1. GetOrCreateChat e a b d = (Inr chat, d1)"
proof -
  have new: "Suc (chat_seq d) \<notin> c_ID ` set (chats d)"
    using fresh by fastforce
  show ?thesis
    using assms(1) new
    by (simp add: GetOrCreateChat_def First_chat_def Create_chat_def nf tick_def Let_def
        split: list.splits)
qed

lemma tick_chats: "chats (tick d) = chats d"
  by (simp add: tick_def)

lemma Count_chats_snd: "snd (Count_chats e P d) = tick d"
  by (simp add: Count_chats_def split: option.splits)

lemma First_message_snd: "snd (First_message e n d) = tick d"
  by (simp add: First_message_def split: option.splits list.splits)

lemma Create_message_chats: "chats (snd (Create_message e k u x d)) = chats d"
  by (simp add: Create_message_def Let_def tick_def split: option.splits)

lemma Update_is_read_chats: "chats (snd (Update_is_read e P d)) = chats d"
  by (simp add: Update_is_read_def tick_def split: option.splits)

lemma UserHasAccessToChat_snd: "snd (UserHasAccessToChat e k u d) = tick d"
  by (simp add: UserHasAccessToChat_def Count_chats_def split: option.splits)

lemma SendMessage_chats: "chats (snd (SendMessage e k u x d)) = chats d"
proof -
  obtain acc d1 where a: "UserHasAccessToChat e k u d = (acc, d1)"
    by (cases "UserHasAccessToChat e k u d")
  then have d1: "chats d1 = chats d"
    using UserHasAccessToChat_snd [of e k u d] by (simp add: tick_chats)
  obtain y d2 where c: "Create_message e k u x d1 = (y, d2)"
    by (cases "Create_message e k u x d1")
  then have d2: "chats d2 = chats d"
    using Create_message_chats [of e k u x d1] d1 by simp
  show ?thesis
  proof (cases y)
    case (Inl err)
    then show ?thesis using a c d1 d2 by (simp add: SendMessage_def)
  next
    case (Inr m)
    obtain z d3 where f: "First_message e (m_ID m) d2 = (z, d3)"
      by (cases "First_message e (m_ID m) d2")
    then have "chats d3 = chats d"
      using First_message_snd [of e "m_ID m" d2] d2 by (simp add: tick_chats)
    then show ?thesis using a c d1 d2 Inr f by (simp add: SendMessage_def split: sum.splits)
  qed
qed

lemma MarkMessagesAsRead_chats: "chats (snd (MarkMessagesAsRead e k u d)) = chats d"
proof -
  obtain acc d1 where a: "UserHasAccessToChat e k u d = (acc, d1)"
    by (cases "UserHasAccessToChat e k u d")
  then have d1: "chats d1 = chats d"
    using UserHasAccessToChat_snd [of e k u d] by (simp add: tick_chats)
  obtain y d2 where c: "Update_is_read e (\<lambda>m. m_ChatID m = k \<and> m_SenderID m \<noteq> u \<and>
                                     \<not> m_IsRead m) d1 = (y, d2)"
    by (cases "Update_is_read e (\<lambda>m. m_ChatID m = k \<and> m_SenderID m \<noteq> u \<and>
                                     \<not> m_IsRead m) d1")
  then have "chats d2 = chats d"
    using Update_is_read_chats [of e "\<lambda>m. m_ChatID m = k \<and> m_SenderID m \<noteq> u \<and>
                                     \<not> m_IsRead m" d1] d1 by simp
  then show ?thesis using a c d1 by (simp add: MarkMessagesAsRead_def split: option.splits)
qed

lemma GetChatByID_chats: "chats (snd (GetChatByID e k u d)) = chats d"
proof -
  obtain acc d1 where a: "UserHasAccessToChat e k u d = (acc, d1)"
    by (cases "UserHasAccessToChat e k u d")
  then have d1: "chats d1 = chats d"
    using UserHasAccessToChat_snd [of e k u d] by (simp add: tick_chats)
  obtain y d2 where c: "First_chat e (\<lambda>c. c_ID c = k) d1 = (y, d2)"
    by (cases "First_chat e (\<lambda>c. c_ID c = k) d1")
  then have "chats d2 = chats d"
    using First_chat_tick [of e "\<lambda>c. c_ID c = k" d1] d1 by (simp add: tick_chats)
  then show ?thesis using a c d1
    by (simp add: GetChatByID_def split: sum.splits gorm_error.splits)
qed

lemma GetChatParticipants_chats: "chats (snd (GetChatParticipants e k d)) = chats d"
proof -
  obtain y d2 where c: "First_chat e (\<lambda>c. c_ID c = k) d = (y, d2)"
    by (cases "First_chat e (\<lambda>c. c_ID c = k) d")
  then have "chats d2 = chats d"
    using First_chat_tick [of e "\<lambda>c. c_ID c = k" d] by (simp add: tick_chats)
  then show ?thesis using c
    by (simp add: GetChatParticipants_def split: sum.splits gorm_error.splits)
qed

lemma Create_chat_chats:
  "chats (snd (Create_chat e u1 u2 d)) = chats d
   \<or> chats (snd (Create_chat e u1 u2 d))
       = chats d @ [\<lparr>c_ID = Suc (chat_seq d), c_User1ID = u1, c_User2ID = u2\<rparr>]"
  by (simp add: Create_chat_def Let_def tick_def split: option.splits)

lemma GetOrCreateChat_chats_ordered:
  assumes lt: "a < b"
  defines "P \<equiv> \<lambda>c. (c_User1ID c = a \<and> c_User2ID c = b) \<or> (c_User1ID c = b \<and> c_User2ID c = a)"
  shows "chats (snd (GetOrCreateChat e a b d)) = chats d
       \<or> (filter P (chats d) = []
          \<and> chats (snd (GetOrCreateChat e a b d))
              = chats d @ [\<lparr>c_ID = Suc (chat_seq d), c_User1ID = a, c_User2ID = b\<rparr>])"
proof -
  obtain x d0 where f: "First_chat e P d = (x, d0)"
    by (cases "First_chat e P d")
  then have d0: "d0 = tick d"
    using First_chat_tick [of e P d] by simp
  have unfold: "GetOrCreateChat e a b d =
      (case (x, d0) of
           (Inr chat, d1) \<Rightarrow> (Inr chat, d1)
         | (Inl ErrRecordNotFound, d1) \<Rightarrow>
             (case Create_chat e a b d1 of
                (Inl err, d2) \<Rightarrow> (Inl (''error creating chat: '' @ Error err), d2)
              | (Inr newChat, d2) \<Rightarrow>
                  (case First_chat e (\<lambda>c. c_ID c = c_ID newChat) d2 of
                     (Inl err, d3) \<Rightarrow> (Inl (''error loading chat users: '' @ Error err), d3)
                   | (Inr loaded, d3) \<Rightarrow> (Inr loaded, d3)))
         | (Inl err, d1) \<Rightarrow> (Inl (''error finding chat: '' @ Error err), d1))"
    using lt f by (simp add: GetOrCreateChat_def P_def)
  show ?thesis
  proof (cases x)
    case (Inr c)
    then show ?thesis using unfold d0 by (simp add: tick_chats)
  next
    case (Inl err)
    show ?thesis
    proof (cases err)
      case (ErrDriver y)
      then show ?thesis using unfold d0 Inl by (simp add: tick_chats)
    next
      case ErrRecordNotFound
      with f Inl have nf: "filter P (chats d) = []"
        by (simp add: First_chat_NotFound)
      obtain y d2 where cr: "Create_chat e a b d0 = (y, d2)"
        by (cases "Create_chat e a b d0")
      from Create_chat_chats [of e a b d0] cr d0
      have d2: "chats d2 = chats d
          \<or> chats d2 = chats d @ [\<lparr>c_ID = Suc (chat_seq d), c_User1ID = a, c_User2ID = b\<rparr>]"
        by (simp add: tick_def)
      show ?thesis
      proof (cases y)
        case (Inl z)
        have "snd (GetOrCreateChat e a b d) = d2"
          using unfold \<open>x = Inl err\<close> ErrRecordNotFound cr Inl by simp
        then show ?thesis using d2 nf by metis
      next
        case (Inr row)
        obtain w d3 where re: "First_chat e (\<lambda>c. c_ID c = c_ID row) d2 = (w, d3)"
          by (cases "First_chat e (\<lambda>c. c_ID c = c_ID row) d2")
        then have d3: "chats d3 = chats d2"
          using First_chat_tick [of e "\<lambda>c. c_ID c = c_ID row" d2] by (simp add: tick_chats)
        have "snd (GetOrCreateChat e a b d) = d3"
          using unfold \<open>x = Inl err\<close> ErrRecordNotFound cr Inr re
          by (simp split: sum.splits)
        then show ?thesis using d3 d2 nf by metis
      qed
    qed
  qed
qed

lemma GetOrCreateChat_keeps_invariants:
  assumes "canonical d \<and> one_chat_per_pair d"
  shows "canonical (snd (GetOrCreateChat e a b d)) \<and> one_chat_per_pair (snd (GetOrCreateChat e a b d))"
proof (cases "a = b")
  case True
  then show ?thesis using assms by (simp add: GetOrCreateChat_def)
next
  case False
  define lo hi where "lo = min a b" and "hi = max a b"
  have n: "GetOrCreateChat e a b d = GetOrCreateChat e lo hi d"
    using False GetOrCreateChat_normal [of a b e d] by (simp add: lo_def hi_def)
  have lt: "lo < hi" using False by (simp add: lo_def hi_def)
  from GetOrCreateChat_chats_ordered [OF lt, of e d]
  show ?thesis
  proof
    assume "chats (snd (GetOrCreateChat e lo hi d)) = chats d"
    with assms show ?thesis by (simp add: n canonical_def one_chat_per_pair_def)
  next
    assume new: "filter (\<lambda>c. (c_User1ID c = lo \<and> c_User2ID c = hi) \<or>
                     (c_User1ID c = hi \<and> c_User2ID c = lo)) (chats d) = []
      \<and> chats (snd (GetOrCreateChat e lo hi d))
          = chats d @ [\<lparr>c_ID = Suc (chat_seq d), c_User1ID = lo, c_User2ID = hi\<rparr>]"
    then have "\<forall>x \<in> set (chats d). \<not> (c_User1ID x = lo \<and> c_User2ID x = hi)"
      by (simp add: filter_empty_conv)
    then have "(lo, hi) \<notin> (\<lambda>c. (c_User1ID c, c_User2ID c)) ` set (chats d)"
      by auto
    with assms new lt show ?thesis by (simp add: n canonical_def one_chat_per_pair_def)
  qed
qed

lemma service_step_keeps_invariants:
  assumes "canonical d \<and> one_chat_per_pair d"
  shows "canonical (service_step e d call) \<and> one_chat_per_pair (service_step e d call)"
proof (cases call)
  case (CallGetOrCreateChat a b)
  then show ?thesis using GetOrCreateChat_keeps_invariants [OF assms, of e a b] by simp
next
  case (CallSendMessage k u x)
  then show ?thesis using assms
    by (simp add: SendMessage_chats canonical_def one_chat_per_pair_def)
next
  case (CallMarkMessagesAsRead k u)
  then show ?thesis using assms
    by (simp add: MarkMessagesAsRead_chats canonical_def one_chat_per_pair_def)
next
  case (CallGetChatByID k u)
  then show ?thesis using assms
    by (simp add: GetChatByID_chats canonical_def one_chat_per_pair_def)
next
  case (CallGetChatParticipants k)
  then show ?thesis using assms
    by (simp add: GetChatParticipants_chats canonical_def one_chat_per_pair_def)
qed

lemma reachable_canonical:
  "canonical (foldl (service_step e) empty_db calls)
   \<and> one_chat_per_pair (foldl (service_step e) empty_db calls)"
proof (induction calls rule: rev_induct)
  case Nil
  show ?case by (simp add: canonical_def one_chat_per_pair_def empty_db_def)
next
  case (snoc call calls)
  then show ?case using service_step_keeps_invariants [of _ e call] by simp
qed

text \<open>
  Claim C4. Let \<open>a \<noteq> b\<close>, on a table in which every row has the smaller id first.
  When \<open>GetOrCreateChat(a, b)\<close> returns a chat, \<open>GetOrCreateChat(b, a)\<close> returns
  the same chat on the same database; the chat has the smaller id as its first
  participant and the greater as its second; the table stays canonical and gains no second
  row for a pair; and a following call, in either order, returns the same chat again
  without adding a row, unless its query fails in the driver. (By
  \<open>reachable_canonical\<close> the table is canonical in every database the service
  reaches from the empty one; by \<open>GetOrCreateChat_succeeds\<close> the call does return
  a chat when no statement fails and the id sequence is ahead of the table.)
\<close>

theorem GetOrCreateChat_same_chat_either_order:
  assumes ne: "a \<noteq> b" and can: "canonical d"
    and ok: "GetOrCreateChat e a b d = (Inr chat, d1)"
  shows "GetOrCreateChat e b a d = (Inr chat, d1)
       \<and> c_User1ID chat = min a b \<and> c_User2ID chat = max a b
       \<and> chat \<in> set (chats d1)
       \<and> canonical d1
       \<and> (one_chat_per_pair d \<longrightarrow> one_chat_per_pair d1)
       \<and> (db_fault e (statements d1) = None \<longrightarrow>
            (\<exists>d2. GetOrCreateChat e b a d1 = (Inr chat, d2) \<and> chats d2 = chats d1)
          \<and> (\<exists>d2. GetOrCreateChat e a b d1 = (Inr chat, d2) \<and> chats d2 = chats d1))"
proof -
  define lo hi where "lo = min a b" and "hi = max a b"
  define P where "P = (\<lambda>c::Chat. (c_User1ID c = lo \<and> c_User2ID c = hi) \<or>
                             (c_User1ID c = hi \<and> c_User2ID c = lo))"
  have lt: "lo < hi" using ne by (simp add: lo_def hi_def)
  have sw: "min b a = lo" "max b a = hi" by (simp_all add: lo_def hi_def min.commute max.commute)
  have ab: "GetOrCreateChat e a b d' = GetOrCreateChat e lo hi d'" for d'
    using ne by (simp add: GetOrCreateChat_normal [of a b] lo_def hi_def)
  have ba: "GetOrCreateChat e b a d' = GetOrCreateChat e lo hi d'" for d'
    using ne GetOrCreateChat_normal [of b a e d'] by (simp add: sw)
  from ok have ok': "GetOrCreateChat e lo hi d = (Inr chat, d1)" by (simp add: ab)
  from GetOrCreateChat_ordered [OF lt ok']
  obtain r rs where f: "filter P (chats d1) = r # rs" and c: "chat = least_id r rs"
    and how: "chats d1 = chats d \<or>
            (filter P (chats d) = [] \<and> c_User1ID chat = lo \<and> c_User2ID chat = hi
             \<and> chats d1 = chats d @ [chat])"
    unfolding P_def by blast
  have "chat \<in> set (filter P (chats d1))"
    unfolding f c by (rule least_id_in)
  then have mem: "chat \<in> set (chats d1)" and Pc: "P chat" by simp_all
  have can1: "canonical d1"
    using how can lt by (auto simp: canonical_def)
  have "c_User1ID chat < c_User2ID chat"
    using can1 mem by (simp add: canonical_def list_all_iff)
  with Pc lt have ids: "c_User1ID chat = lo \<and> c_User2ID chat = hi"
    by (auto simp: P_def)
  have one: "one_chat_per_pair d \<longrightarrow> one_chat_per_pair d1"
  proof
    assume o: "one_chat_per_pair d"
    from how show "one_chat_per_pair d1"
    proof
      assume "chats d1 = chats d"
      with o show ?thesis by (simp add: one_chat_per_pair_def)
    next
      assume new: "filter P (chats d) = [] \<and> c_User1ID chat = lo \<and> c_User2ID chat = hi
             \<and> chats d1 = chats d @ [chat]"
      then have "\<forall>x \<in> set (chats d). \<not> P x" by (simp add: filter_empty_conv)
      then have "(lo, hi) \<notin> (\<lambda>c. (c_User1ID c, c_User2ID c)) ` set (chats d)"
        by (auto simp: P_def)
      with o new show ?thesis by (simp add: one_chat_per_pair_def)
    qed
  qed
  have again: "db_fault e (statements d1) = None \<longrightarrow>
      GetOrCreateChat e lo hi d1 = (Inr chat, tick d1)"
    using GetOrCreateChat_again [OF lt f [unfolded P_def], of e] c by simp
  have t: "chats (tick d1) = chats d1" by (simp add: tick_def)
  show ?thesis
    using ok' ids mem can1 one again t
    by (simp add: ab ba lo_def [symmetric] hi_def [symmetric])
qed

theorem GetOrCreateChat_same_chat_either_order_witness:
  "canonical empty_db
   \<and> GetOrCreateChat quiet 7 5 empty_db
        = (Inr \<lparr>c_ID = 1, c_User1ID = 5, c_User2ID = 7\<rparr>,
           \<lparr>chats = [\<lparr>c_ID = 1, c_User1ID = 5, c_User2ID = 7\<rparr>], messages = [],
            chat_seq = 1, message_seq = 0, statements = 3\<rparr>)
   \<and> GetOrCreateChat quiet 5 7 empty_db = GetOrCreateChat quiet 7 5 empty_db
   \<and> fst (GetOrCreateChat quiet 5 7 (snd (GetOrCreateChat quiet 7 5 empty_db)))
        = Inr \<lparr>c_ID = 1, c_User1ID = 5, c_User2ID = 7\<rparr>
   \<and> chats (snd (GetOrCreateChat quiet 5 7 (snd (GetOrCreateChat quiet 7 5 empty_db))))
        = [\<lparr>c_ID = 1, c_User1ID = 5, c_User2ID = 7\<rparr>]"
proof -
  let ?c = "\<lparr>c_ID = 1, c_User1ID = 5, c_User2ID = 7\<rparr>"
  let ?d1 = "\<lparr>chats = [?c], messages = [],
            chat_seq = 1, message_seq = 0, statements = 3\<rparr>"
  have h1: "(7::nat) \<noteq> 5" by simp
  have h2: "canonical empty_db" by (simp add: canonical_def empty_db_def)
  have h3: "GetOrCreateChat quiet 7 5 empty_db = (Inr ?c, ?d1)"
    by (simp add: GetOrCreateChat_def First_chat_def Create_chat_def least_id_def tick_def
        empty_db_def quiet_def Let_def)
  have h4: "db_fault quiet (statements ?d1) = None" by (simp add: quiet_def)
  note T = GetOrCreateChat_same_chat_either_order [OF h1 h2 h3]
  from T have a: "GetOrCreateChat quiet 5 7 empty_db = (Inr ?c, ?d1)" by (rule conjunct1)
  from T h4 obtain d2 where b: "GetOrCreateChat quiet 5 7 ?d1 = (Inr ?c, d2)"
    and c: "chats d2 = chats ?d1" by blast
  from h2 h3 a b c show ?thesis by simp
qed

subsection \<open>Failures inside the handlers\<close>

text \<open>
  Claim C2, as stated, fails: not every failure inside a handler becomes an error event.
  User 5, registered on connection 1, sends a valid \<open>send_message\<close> for chat 1. The
  message is stored, then the participant lookup of the broadcast fails in the driver
  (the fourth statement of the command): \<open>broadcastToChat\<close> logs the failure and
  returns, and nothing at all is written to any connection.
\<close>

theorem dispatch_lookup_failure_counterexample:
  "connections two_users 5 = Some (Conn 1)
   \<and> wire (dispatch (faulty 3) 5
        \<lparr>Type = ''send_message'', ChatID = 1, Content = ''hi'', Data = NoData\<rparr> 0 two_users) = []
   \<and> logs (dispatch (faulty 3) 5
        \<lparr>Type = ''send_message'', ChatID = 1, Content = ''hi'', Data = NoData\<rparr> 0 two_users)
       = [LogParticipantsFailed ''error retrieving chat participants: connection refused'']
   \<and> messages (db (dispatch (faulty 3) 5
        \<lparr>Type = ''send_message'', ChatID = 1, Content = ''hi'', Data = NoData\<rparr> 0 two_users))
       = [\<lparr>m_ID = 1, m_ChatID = 1, m_SenderID = 5, m_Content = ''hi'', m_IsRead = False\<rparr>]"
  by (simp add: dispatch_def handleSendMessage_def SendMessage_def UserHasAccessToChat_def
      Count_chats_def Create_message_def First_message_def broadcastToChat_def
      GetChatParticipants_def First_chat_def tick_def Let_def
      two_users_def chat_db_def faulty_def quiet_def)

lemma session_loop_frames:
  "session_loop e u (map (\<lambda>(m, t). Frame m t) fs @ rest) s
     = session_loop e u rest (foldl (\<lambda>s (m, t). dispatch e u m t s) s fs)"
  by (induction fs arbitrary: s) auto

lemma session_loop_ended: "fst (session_loop e u reads s) \<longleftrightarrow> (\<exists>r. Failed r \<in> set reads)"
  by (induction e u reads s rule: session_loop.induct) auto

text \<open>
  Claim C2, amended. For an originator whose user id has a registered connection \<open>c\<close>:
  every validation failure (chat id 0, empty content) and every failure returned by the
  store call of the handler (\<open>SendMessage\<close>, \<open>GetChatByID\<close>,
  \<open>MarkMessagesAsRead\<close>) makes exactly one write, of one error event with the text
  of the failure, to \<open>c\<close>; a failed participant lookup of the broadcast is logged
  and writes nothing. No outcome of a handler ends the read loop: the loop has ended if
  and only if a read failed, and every frame read before the first failed read is
  dispatched, in order.
\<close>

theorem handler_failures_reported_loop_continues:
  assumes reg: "connections s uid = Some (Conn c)"
  shows "(Type msg = ''send_message'' \<and> (ChatID msg = 0 \<or> Content msg = []) \<longrightarrow>
            wire (dispatch e uid msg now s)
              = wire s @ [(c, event ''error'' (MapError ''Invalid message data''),
                           write_ok e (length (wire s)) c)])
       \<and> (\<forall>err d1. Type msg = ''send_message'' \<and> ChatID msg \<noteq> 0 \<and> Content msg \<noteq> [] \<and>
            SendMessage e (ChatID msg) uid (Content msg) (db s) = (Inl err, d1) \<longrightarrow>
            wire (dispatch e uid msg now s)
              = wire s @ [(c, event ''error'' (MapError err), write_ok e (length (wire s)) c)])
       \<and> (\<forall>message d1 err d2. Type msg = ''send_message'' \<and> ChatID msg \<noteq> 0 \<and> Content msg \<noteq> [] \<and>
            SendMessage e (ChatID msg) uid (Content msg) (db s) = (Inr message, d1) \<and>
            GetChatParticipants e (ChatID msg) d1 = (Inl err, d2) \<longrightarrow>
            wire (dispatch e uid msg now s) = wire s
          \<and> logs (dispatch e uid msg now s) = logs s @ [LogParticipantsFailed err])
       \<and> (Type msg = ''join_chat'' \<and> ChatID msg = 0 \<longrightarrow>
            wire (dispatch e uid msg now s)
              = wire s @ [(c, event ''error'' (MapError ''Invalid chat ID''),
                           write_ok e (length (wire s)) c)])
       \<and> (\<forall>err d1. Type msg = ''join_chat'' \<and> ChatID msg \<noteq> 0 \<and>
            GetChatByID e (ChatID msg) uid (db s) = (Inl err, d1) \<longrightarrow>
            wire (dispatch e uid msg now s)
              = wire s @ [(c, event ''error'' (MapError err), write_ok e (length (wire s)) c)])
       \<and> (Type msg = ''mark_read'' \<and> ChatID msg = 0 \<longrightarrow>
            wire (dispatch e uid msg now s)
              = wire s @ [(c, event ''error'' (MapError ''Invalid chat ID''),
                           write_ok e (length (wire s)) c)])
       \<and> (\<forall>err d1. Type msg = ''mark_read'' \<and> ChatID msg \<noteq> 0 \<and>
            MarkMessagesAsRead e (ChatID msg) uid (db s) = (Some err, d1) \<longrightarrow>
            wire (dispatch e uid msg now s)
              = wire s @ [(c, event ''error'' (MapError err), write_ok e (length (wire s)) c)])
       \<and> (fst (session_loop e uid reads s) \<longleftrightarrow> (\<exists>r. Failed r \<in> set reads))
       \<and> session_loop e uid (map (\<lambda>(m, t). Frame m t) fs @ Failed r # rest) s
           = (True, (foldl (\<lambda>s (m, t). dispatch e uid m t s) s fs)
                      \<lparr>logs := logs (foldl (\<lambda>s (m, t). dispatch e uid m t s) s fs)
                                @ [LogReadError r]\<rparr>)"
proof -
  have A: "Type msg = ''send_message'' \<and> (ChatID msg = 0 \<or> Content msg = []) \<longrightarrow>
            wire (dispatch e uid msg now s)
              = wire s @ [(c, event ''error'' (MapError ''Invalid message data''),
                           write_ok e (length (wire s)) c)]"
    using reg by (auto simp: dispatch_def handleSendMessage_def sendError_def sendToUser_def)
  have B: "\<forall>err d1. Type msg = ''send_message'' \<and> ChatID msg \<noteq> 0 \<and> Content msg \<noteq> [] \<and>
            SendMessage e (ChatID msg) uid (Content msg) (db s) = (Inl err, d1) \<longrightarrow>
            wire (dispatch e uid msg now s)
              = wire s @ [(c, event ''error'' (MapError err), write_ok e (length (wire s)) c)]"
    using reg by (auto simp: dispatch_def handleSendMessage_def sendError_def sendToUser_def)
  have C: "\<forall>message d1 err d2. Type msg = ''send_message'' \<and> ChatID msg \<noteq> 0 \<and> Content msg \<noteq> [] \<and>
            SendMessage e (ChatID msg) uid (Content msg) (db s) = (Inr message, d1) \<and>
            GetChatParticipants e (ChatID msg) d1 = (Inl err, d2) \<longrightarrow>
            wire (dispatch e uid msg now s) = wire s
          \<and> logs (dispatch e uid msg now s) = logs s @ [LogParticipantsFailed err]"
    by (auto simp: dispatch_def handleSendMessage_def broadcastToChat_def)
  have D: "Type msg = ''join_chat'' \<and> ChatID msg = 0 \<longrightarrow>
            wire (dispatch e uid msg now s)
              = wire s @ [(c, event ''error'' (MapError ''Invalid chat ID''),
                           write_ok e (length (wire s)) c)]"
    using reg by (auto simp: dispatch_def handleJoinChat_def sendError_def sendToUser_def)
  have E: "\<forall>err d1. Type msg = ''join_chat'' \<and> ChatID msg \<noteq> 0 \<and>
            GetChatByID e (ChatID msg) uid (db s) = (Inl err, d1) \<longrightarrow>
            wire (dispatch e uid msg now s)
              = wire s @ [(c, event ''error'' (MapError err), write_ok e (length (wire s)) c)]"
    using reg by (auto simp: dispatch_def handleJoinChat_def sendError_def sendToUser_def)
  have F: "Type msg = ''mark_read'' \<and> ChatID msg = 0 \<longrightarrow>
            wire (dispatch e uid msg now s)
              = wire s @ [(c, event ''error'' (MapError ''Invalid chat ID''),
                           write_ok e (length (wire s)) c)]"
    using reg by (auto simp: dispatch_def handleMarkRead_def sendError_def sendToUser_def)
  have G: "\<forall>err d1. Type msg = ''mark_read'' \<and> ChatID msg \<noteq> 0 \<and>
            MarkMessagesAsRead e (ChatID msg) uid (db s) = (Some err, d1) \<longrightarrow>
            wire (dispatch e uid msg now s)
              = wire s @ [(c, event ''error'' (MapError err), write_ok e (length (wire s)) c)]"
    using reg by (auto simp: dispatch_def handleMarkRead_def sendError_def sendToUser_def)
  have H: "fst (session_loop e uid reads s) \<longleftrightarrow> (\<exists>r. Failed r \<in> set reads)"
    by (rule session_loop_ended)
  have I: "session_loop e uid (map (\<lambda>(m, t). Frame m t) fs @ Failed r # rest) s
           = (True, (foldl (\<lambda>s (m, t). dispatch e uid m t s) s fs)
                      \<lparr>logs := logs (foldl (\<lambda>s (m, t). dispatch e uid m t s) s fs)
                                @ [LogReadError r]\<rparr>)"
    by (simp add: session_loop_frames)
  from A B C D E F G H I show ?thesis by blast
qed

theorem handler_failures_reported_loop_continues_witness:
  "connections two_users 5 = Some (Conn 1)
   \<and> wire (dispatch quiet 5 \<lparr>Type = ''send_message'', ChatID = 0, Content = ''hi'', Data = NoData\<rparr>
        0 two_users)
       = [(1, event ''error'' (MapError ''Invalid message data''), True)]
   \<and> fst (session_loop quiet 5
        [Frame \<lparr>Type = ''send_message'', ChatID = 0, Content = ''hi'', Data = NoData\<rparr> 0,
         Frame (event ''ping'' NoData) 1, Failed Timeout] two_users)
   \<and> \<not> fst (session_loop quiet 5
        [Frame \<lparr>Type = ''send_message'', ChatID = 0, Content = ''hi'', Data = NoData\<rparr> 0,
         Frame (event ''ping'' NoData) 1] two_users)"
proof -
  let ?bad = "\<lparr>Type = ''send_message'', ChatID = 0, Content = ''hi'', Data = NoData\<rparr>"
  let ?frames = "[Frame ?bad 0, Frame (event ''ping'' NoData) 1]"
  have h: "connections two_users 5 = Some (Conn 1)"
    by (simp add: two_users_def)
  have w: "wire two_users = []" "write_ok quiet 0 1"
    by (simp_all add: two_users_def quiet_def)
  have a: "wire (dispatch quiet 5 ?bad 0 two_users)
       = [(1, event ''error'' (MapError ''Invalid message data''), True)]"
    using handler_failures_reported_loop_continues
      [OF h, where msg = ?bad and e = quiet and now = 0, THEN conjunct1] w
    by simp
  have b: "fst (session_loop quiet 5 (?frames @ [Failed Timeout]) two_users)"
    using handler_failures_reported_loop_continues
      [OF h, where e = quiet and reads = "?frames @ [Failed Timeout]",
       THEN conjunct2, THEN conjunct2, THEN conjunct2, THEN conjunct2, THEN conjunct2,
       THEN conjunct2, THEN conjunct2, THEN conjunct1]
    by simp
  have c: "\<not> fst (session_loop quiet 5 ?frames two_users)"
    using handler_failures_reported_loop_continues
      [OF h, where e = quiet and reads = ?frames,
       THEN conjunct2, THEN conjunct2, THEN conjunct2, THEN conjunct2, THEN conjunct2,
       THEN conjunct2, THEN conjunct2, THEN conjunct1]
    by simp
  from h a b c show ?thesis by simp
qed

end
